theory Spec2Isabelle
  imports Main "HOL-Library.Product_Lexorder"
begin

section \<open>Time stamps\<close>

text \<open>
  A naive \<^verbatim>\<open>datetime.datetime\<close>: its seven fields. Python compares two naive
  datetimes field by field, from the year down to the microsecond, which is the
  lexicographic order of the tuple of fields.
\<close>

record datetime =
  year :: nat
  month :: nat
  day :: nat
  hour :: nat
  minute :: nat
  second :: nat
  microsecond :: nat

definition dt_key :: "datetime \<Rightarrow> nat \<times> nat \<times> nat \<times> nat \<times> nat \<times> nat \<times> nat" where
  "dt_key d = (year d, month d, day d, hour d, minute d, second d, microsecond d)"

definition dt_le :: "datetime \<Rightarrow> datetime \<Rightarrow> bool" where
  "dt_le a b = (dt_key a \<le> dt_key b)"

definition dt_less :: "datetime \<Rightarrow> datetime \<Rightarrow> bool" where
  "dt_less a b = (dt_key a < dt_key b)"

text \<open>The ranges the constructor of \<^verbatim>\<open>datetime\<close> enforces on the fields.\<close>

definition valid_datetime :: "datetime \<Rightarrow> bool" where
  "valid_datetime d =
     (1 \<le> year d \<and> year d \<le> 9999 \<and> 1 \<le> month d \<and> month d \<le> 12 \<and>
      1 \<le> day d \<and> day d \<le> 31 \<and> hour d < 24 \<and> minute d < 60 \<and>
      second d < 60 \<and> microsecond d < 1000000)"

text \<open>
  \<^verbatim>\<open>dt.datetime(year=y, month=m, day=d)\<close>: the omitted fields default to zero.
\<close>

definition datetime_ymd :: "nat \<Rightarrow> nat \<Rightarrow> nat \<Rightarrow> datetime" where
  "datetime_ymd y m d =
     \<lparr>year = y, month = m, day = d, hour = 0, minute = 0, second = 0, microsecond = 0\<rparr>"

section \<open>The interval helper\<close>


section \<open>Formatting time stamps\<close>

text \<open>
  \<^verbatim>\<open>strftime\<close> for the directives the program uses: \<^verbatim>\<open>%m\<close>, \<^verbatim>\<open>%d\<close>, \<^verbatim>\<open>%H\<close>,
  \<^verbatim>\<open>%I\<close> and \<^verbatim>\<open>%M\<close> are two digits, \<^verbatim>\<open>%Y\<close> is four digits, \<^verbatim>\<open>%p\<close> is the
  AM/PM marker of the hour; every other character of the format is copied. No directive
  of the program prints the seconds.
\<close>

definition digit :: "nat \<Rightarrow> char" where
  "digit n = ''0123456789'' ! (n mod 10)"

definition pad2 :: "nat \<Rightarrow> string" where
  "pad2 n = [digit (n div 10), digit n]"

definition pad4 :: "nat \<Rightarrow> string" where
  "pad4 n = [digit (n div 1000), digit (n div 100), digit (n div 10), digit n]"

definition hour12 :: "nat \<Rightarrow> nat" where
  "hour12 h = (if h mod 12 = 0 then 12 else h mod 12)"

definition directive :: "datetime \<Rightarrow> char \<Rightarrow> string" where
  "directive d x =
     (if x = CHR ''m'' then pad2 (month d)
      else if x = CHR ''d'' then pad2 (day d)
      else if x = CHR ''Y'' then pad4 (year d)
      else if x = CHR ''H'' then pad2 (hour d)
      else if x = CHR ''I'' then pad2 (hour12 (hour d))
      else if x = CHR ''M'' then pad2 (minute d)
      else if x = CHR ''p'' then (if hour d < 12 then ''AM'' else ''PM'')
      else [CHR ''%'', x])"

fun strftime :: "datetime \<Rightarrow> string \<Rightarrow> string" where
  "strftime d [] = []"
| "strftime d [c] = [c]"
| "strftime d (c # x # fmt) =
     (if c = CHR ''%'' then directive d x @ strftime d fmt else c # strftime d (x # fmt))"

section \<open>The mail client, the file system and the archive reader\<close>

text \<open>
  The content of a file is plain bytes or a zip archive, the archive as the list of its members in
  directory order (name and content; names may repeat).
\<close>

datatype payload = Bytes string | Archive "(string \<times> string) list"

record attachment =
  FileName :: string
  Content :: payload

record email =
  Subject :: string
  ReceivedTime :: datetime
  Attachments :: "attachment list"

datatype folder = Folder (Name: string) (Items: "email list") (Folders: "folder list")

text \<open>The calls that reach the mail client and the archive reader, in order.\<close>

datatype call =
    EvDispatch
  | EvRestrict string
  | EvSort
  | EvSaveAsFile string string
  | EvExtract string string

text \<open>
  Everything outside the object: what was printed (one entry for each \<^verbatim>\<open>print\<close>),
  the root folders of the MAPI namespace, the calls made so far, the files on disk
  (newest binding first) and the paths at which the mail client cannot write.
\<close>

record world =
  stdout :: "string list"
  mailbox :: "folder list"
  calls :: "call list"
  files :: "(string \<times> payload) list"
  locked :: "string list"

datatype error =
    Exception string
  | AttributeError string
  | UnboundLocalError string
  | com_error string

text \<open>
  What a method can hand back: \<^verbatim>\<open>None\<close>, a string (such as a path) or the attachment
  object of the mail client.
\<close>

datatype result = PyNone | PyStr string | PyAttachment attachment

definition print :: "string \<Rightarrow> world \<Rightarrow> world" where
  "print s w = w\<lparr>stdout := stdout w @ [s]\<rparr>"

definition called :: "call \<Rightarrow> world \<Rightarrow> world" where
  "called c w = w\<lparr>calls := calls w @ [c]\<rparr>"

definition quoted :: "string \<Rightarrow> string" where
  "quoted s = CHR 0x27 # s @ [CHR 0x27]"

definition folder_named :: "folder list \<Rightarrow> string \<Rightarrow> folder option" where
  "folder_named fs n = find (\<lambda>f. Name f = n) fs"

text \<open>
  Modelled from the spec: the mail client's \<^verbatim>\<open>Restrict\<close>, which is not code of the
  program. The spec describes it as "item enumeration with server-side time-range
  filtering (inclusive bounds, formatted as a locale-specific date-time string)". The
  model reads a filter \<^verbatim>\<open>[ReceivedTime] >= 'mm/dd/YYYY HH:MM PP'\<close> (or \<^verbatim>\<open><=\<close>), takes
  the instant the string denotes (its hour as written, no seconds, hence second zero) and
  keeps the items received at or after (at or before) that instant. A filter it cannot
  read is an error of the mail client.
\<close>

definition digit_val :: "char \<Rightarrow> nat option" where
  "digit_val c = (if c \<in> set ''0123456789'' then Some (of_char c - 48) else None)"

fun number :: "string \<Rightarrow> nat \<Rightarrow> nat option" where
  "number [] acc = Some acc"
| "number (c # cs) acc =
     (case digit_val c of None \<Rightarrow> None | Some v \<Rightarrow> number cs (10 * acc + v))"

definition parse_stamp :: "string \<Rightarrow> datetime option" where
  "parse_stamp s =
     (if length s = 20 \<and> s ! 2 = CHR ''/'' \<and> s ! 5 = CHR ''/'' \<and> s ! 10 = CHR '' '' \<and>
         s ! 13 = CHR '':'' \<and> s ! 16 = CHR '' '' \<and>
         (s ! 17 = CHR ''A'' \<or> s ! 17 = CHR ''P'') \<and> s ! 18 = CHR ''M'' \<and> s ! 19 = CHR 0x27
      then
        (case (number (take 2 s) 0, number (take 2 (drop 3 s)) 0, number (take 4 (drop 6 s)) 0,
               number (take 2 (drop 11 s)) 0, number (take 2 (drop 14 s)) 0) of
           (Some mo, Some da, Some ye, Some ho, Some mi) \<Rightarrow>
             Some \<lparr>year = ye, month = mo, day = da, hour = ho, minute = mi,
                   second = 0, microsecond = 0\<rparr>
         | _ \<Rightarrow> None)
      else None)"

definition Restrict :: "string \<Rightarrow> email list \<Rightarrow> error + email list" where
  "Restrict flt emails =
     (if take 19 flt = ''[ReceivedTime] >= '' @ [CHR 0x27] then
        (case parse_stamp (drop 19 flt) of
           None \<Rightarrow> Inl (com_error flt)
         | Some t \<Rightarrow> Inr (filter (\<lambda>m. dt_le t (ReceivedTime m)) emails))
      else if take 19 flt = ''[ReceivedTime] <= '' @ [CHR 0x27] then
        (case parse_stamp (drop 19 flt) of
           None \<Rightarrow> Inl (com_error flt)
         | Some t \<Rightarrow> Inr (filter (\<lambda>m. dt_le (ReceivedTime m) t) emails))
      else Inl (com_error flt))"

text \<open>
  Modelled from the spec: the mail client's \<^verbatim>\<open>Sort("[ReceivedTime]", True)\<close>,
  "descending sort by received time": a stable insertion sort, latest first.
\<close>

fun insert_desc :: "email \<Rightarrow> email list \<Rightarrow> email list" where
  "insert_desc m [] = [m]"
| "insert_desc m (x # xs) =
     (if dt_less (ReceivedTime x) (ReceivedTime m) then m # x # xs else x # insert_desc m xs)"

definition Sort :: "email list \<Rightarrow> email list" where
  "Sort emails = foldr insert_desc emails []"

text \<open>
  Modelled from the spec: the mail client's \<^verbatim>\<open>SaveAsFile\<close>, "save-to-path
  capability": it writes the attachment's content at the path, or fails (\<open>None\<close>) at
  a path it cannot write. A failed save leaves the model's disk as it was; the spec
  allows a partial write there, and no property below depends on it.
\<close>

definition SaveAsFile :: "attachment \<Rightarrow> string \<Rightarrow> world \<Rightarrow> world option" where
  "SaveAsFile a path w =
     (if path \<in> set (locked w) then None
      else Some (called (EvSaveAsFile (FileName a) path) (w\<lparr>files := (path, Content a) # files w\<rparr>)))"

text \<open>
  Modelled from the spec: the archive reader, "a validity check, member-name listing, and
  per-member extraction to a directory". \<^verbatim>\<open>is_zipfile\<close> is false for a missing file
  and for a file that is not an archive. \<^verbatim>\<open>extract\<close> writes the last member of that
  name below the directory, at the path the spec's scenario gives
  (\<^verbatim>\<open>C:\tmp\out\2021_report_final.csv\<close> for the directory \<^verbatim>\<open>C:\tmp\out\<close>).
\<close>

definition is_zipfile :: "world \<Rightarrow> string \<Rightarrow> bool" where
  "is_zipfile w filepath =
     (case map_of (files w) filepath of Some (Archive ms) \<Rightarrow> True | _ \<Rightarrow> False)"

definition ZipFile :: "world \<Rightarrow> string \<Rightarrow> (string \<times> string) list" where
  "ZipFile w filepath =
     (case map_of (files w) filepath of Some (Archive ms) \<Rightarrow> ms | _ \<Rightarrow> [])"

definition namelist :: "(string \<times> string) list \<Rightarrow> string list" where
  "namelist zip_file = map fst zip_file"

definition zip_extract :: "(string \<times> string) list \<Rightarrow> string \<Rightarrow> string \<Rightarrow> world \<Rightarrow> world" where
  "zip_extract zip_file file_name path w =
     called (EvExtract file_name path)
       (w\<lparr>files := (path @ [CHR 0x5C] @ file_name,
                     Bytes (case map_of (rev zip_file) file_name of Some c \<Rightarrow> c | None \<Rightarrow> []))
                   # files w\<rparr>)"

section \<open>The attachment getter\<close>

type_synonym table = "string list list"

record outlook_attachment =
  attachment_filepath :: "string option"
  df :: "table option"

definition init :: outlook_attachment where
  "init = \<lparr>attachment_filepath = None, df = None\<rparr>"

type_synonym outcome = "(error + result) \<times> outlook_attachment \<times> world"

subsection \<open>\<^verbatim>\<open>get_attachment\<close>\<close>

text \<open>
  The arguments carry the types the \<^verbatim>\<open>isinstance\<close> assertions ask for (a list, two
  strings, an optional string, two optional datetimes), so those assertions hold and
  have no branch here.

  Lines 49 to 53: a path to save at must hold a backslash or a slash.
\<close>

definition check_save_attachment_as :: "string option \<Rightarrow> error option" where
  "check_save_attachment_as save_attachment_as =
     (case save_attachment_as of
        None \<Rightarrow> None
      | Some p \<Rightarrow>
          if \<not> (CHR 0x5C \<in> set p \<or> CHR ''/'' \<in> set p)
          then Some (Exception ''Parameter save_attachment_as requires a full path. The method will not default to the current working directory.'')
          else None)"

text \<open>Lines 55 to 58: with both bounds given, the start must not be after the end.\<close>

definition check_interval :: "datetime option \<Rightarrow> datetime option \<Rightarrow> error option" where
  "check_interval start_interval end_interval =
     (case (start_interval, end_interval) of
        (Some s, Some e) \<Rightarrow>
          if dt_less e s
          then Some (Exception (''Start of interval '' @ strftime s ''%m/%d/%Y %H:%M %p'' @
                 '' is more recent than end of interval '' @ strftime e ''%m/%d/%Y %H:%M %p'' @
                 ''. Start of interval must come before or at the same time as end of interval.''))
          else None
      | _ \<Rightarrow> None)"

text \<open>
  Lines 60 and 61 print both bounds; neither line tests for \<^verbatim>\<open>None\<close>, and
  \<^verbatim>\<open>None.strftime\<close> raises \<^verbatim>\<open>AttributeError\<close> before anything is printed by that
  line.
\<close>

definition none_strftime :: error where
  "none_strftime =
     AttributeError (quoted ''NoneType'' @ '' object has no attribute '' @ quoted ''strftime'')"

definition print_interval :: "datetime option \<Rightarrow> datetime option \<Rightarrow> world \<Rightarrow> error option \<times> world" where
  "print_interval start_interval end_interval w =
     (case start_interval of
        None \<Rightarrow> (Some none_strftime, w)
      | Some s \<Rightarrow>
          let w1 = print (''Start interval email query: '' @ strftime s ''%m/%d/%Y %I:%M %p'' @
                          ''\<newline>\<newline>'') w
          in (case end_interval of
                None \<Rightarrow> (Some none_strftime, w1)
              | Some e \<Rightarrow>
                  (None, print (''End interval email query: '' @ strftime e ''%m/%d/%Y %I:%M %p'' @
                                ''\<newline>\<newline>'') w1)))"

text \<open>
  Lines 66 to 75: the first name is looked up among the root folders, every later one
  among the subfolders of the folder found so far. A missing name is an error of the
  mail client; with no name at all \<^verbatim>\<open>Folder\<close> is never bound and line 75 raises.
\<close>

fun descend :: "folder list \<Rightarrow> string list \<Rightarrow> folder option \<Rightarrow> error + folder option" where
  "descend fs [] cur = Inr cur"
| "descend fs (n # ns) cur =
     (case folder_named fs n of
        None \<Rightarrow> Inl (com_error n)
      | Some f \<Rightarrow> descend (Folders f) ns (Some f))"

definition folder_items :: "world \<Rightarrow> string list \<Rightarrow> error + email list" where
  "folder_items w folderpath_list =
     (case descend (mailbox w) folderpath_list None of
        Inl err \<Rightarrow> Inl err
      | Inr None \<Rightarrow> Inl (UnboundLocalError ''Folder'')
      | Inr (Some f) \<Rightarrow> Inr (Items f))"

text \<open>Lines 77 to 85: one \<^verbatim>\<open>Restrict\<close> for each bound that is given.\<close>

definition restrict_bound :: "string \<Rightarrow> datetime option \<Rightarrow> email list \<Rightarrow> world \<Rightarrow> (error + email list) \<times> world" where
  "restrict_bound rel bound emails w =
     (case bound of
        None \<Rightarrow> (Inr emails, w)
      | Some t \<Rightarrow>
          let flt = ''[ReceivedTime] '' @ rel @ '' '' @ quoted (strftime t ''%m/%d/%Y %H:%M %p'')
          in (Restrict flt emails, called (EvRestrict flt) w))"

text \<open>Lines 101 to 114: what is done with the attachment that was found.\<close>

definition deliver :: "outlook_attachment \<Rightarrow> world \<Rightarrow> string option \<Rightarrow> attachment \<Rightarrow> outcome" where
  "deliver self w save_attachment_as a =
     (case save_attachment_as of
        Some p \<Rightarrow>
          (case SaveAsFile a p w of
             None \<Rightarrow> (Inl (Exception ''Attachment was not saved. Please refer to Python error.''), self, w)
           | Some w1 \<Rightarrow>
               let w2 = print (''Most recent email attachment that meets criteria has been saved as '' @ p @
                               ''\<newline>\<newline>'') w1
               in (Inr PyNone, self\<lparr>attachment_filepath := Some p\<rparr>, w2))
      | None \<Rightarrow> (Inr (PyAttachment a), self, w))"

text \<open>
  Lines 93 to 114: the two nested loops. \<open>None\<close> means that the loop ran to its end;
  the first attachment with the name ends both loops.
\<close>

fun scan_attachments :: "outlook_attachment \<Rightarrow> world \<Rightarrow> string option \<Rightarrow> string \<Rightarrow> attachment list \<Rightarrow> outcome option" where
  "scan_attachments self w save_attachment_as email_attachment_name [] = None"
| "scan_attachments self w save_attachment_as email_attachment_name (a # rest) =
     (if FileName a = email_attachment_name then Some (deliver self w save_attachment_as a)
      else scan_attachments self w save_attachment_as email_attachment_name rest)"

fun scan_emails :: "outlook_attachment \<Rightarrow> world \<Rightarrow> string option \<Rightarrow> string \<Rightarrow> string \<Rightarrow> email list \<Rightarrow> outcome option" where
  "scan_emails self w save_attachment_as email_subject_name email_attachment_name [] = None"
| "scan_emails self w save_attachment_as email_subject_name email_attachment_name (m # rest) =
     (if Subject m = email_subject_name then
        (case scan_attachments self w save_attachment_as email_attachment_name (Attachments m) of
           Some r \<Rightarrow> Some r
         | None \<Rightarrow> scan_emails self w save_attachment_as email_subject_name email_attachment_name rest)
      else scan_emails self w save_attachment_as email_subject_name email_attachment_name rest)"

definition not_found :: "string \<Rightarrow> string \<Rightarrow> error" where
  "not_found email_subject_name email_attachment_name =
     Exception (''Could not find email '' @ email_subject_name @ '' with attachment '' @
                email_attachment_name @ '' within (un)specified time interval.'')"

definition get_attachment :: "outlook_attachment \<Rightarrow> world \<Rightarrow> string list \<Rightarrow> string \<Rightarrow> string \<Rightarrow> datetime option \<Rightarrow> datetime option \<Rightarrow> string option \<Rightarrow> outcome" where
  "get_attachment self w folderpath_list email_subject_name email_attachment_name
       start_interval end_interval save_attachment_as =
     (case check_save_attachment_as save_attachment_as of
        Some err \<Rightarrow> (Inl err, self, w)
      | None \<Rightarrow>
     (case check_interval start_interval end_interval of
        Some err \<Rightarrow> (Inl err, self, w)
      | None \<Rightarrow>
     (case print_interval start_interval end_interval w of
        (Some err, w1) \<Rightarrow> (Inl err, self, w1)
      | (None, w1) \<Rightarrow>
     (let w2 = called EvDispatch w1 in
      case folder_items w2 folderpath_list of
        Inl err \<Rightarrow> (Inl err, self, w2)
      | Inr emails \<Rightarrow>
     (case restrict_bound ''>='' start_interval emails w2 of
        (Inl err, w3) \<Rightarrow> (Inl err, self, w3)
      | (Inr emails1, w3) \<Rightarrow>
     (case restrict_bound ''<='' end_interval emails1 w3 of
        (Inl err, w4) \<Rightarrow> (Inl err, self, w4)
      | (Inr emails2, w4) \<Rightarrow>
     (let w5 = called EvSort w4 in
      case scan_emails self w5 save_attachment_as email_subject_name email_attachment_name
             (Sort emails2) of
        Some r \<Rightarrow> r
      | None \<Rightarrow> (Inl (not_found email_subject_name email_attachment_name), self, w5))))))))"

subsection \<open>\<^verbatim>\<open>extract_zip_content\<close>\<close>

text \<open>\<^verbatim>\<open>extract_file_name in file_name\<close>: the first string occurs inside the second.\<close>

fun str_in :: "string \<Rightarrow> string \<Rightarrow> bool" where
  "str_in xs [] = (xs = [])"
| "str_in xs (y # ys) = (take (length xs) (y # ys) = xs \<or> str_in xs ys)"

text \<open>
  Lines 141 to 160: the loop over the member names, with the local variables it assigns
  (\<^verbatim>\<open>filepath\<close>, \<^verbatim>\<open>file_found\<close>) as accumulators.
\<close>

fun extract_members :: "bool \<Rightarrow> string \<Rightarrow> string \<Rightarrow> (string \<times> string) list \<Rightarrow> string list \<Rightarrow> string \<Rightarrow> bool \<Rightarrow> world \<Rightarrow> string \<times> bool \<times> world" where
  "extract_members exact extract_file_name save_unzipped_folder zip_file [] filepath file_found w =
     (filepath, file_found, w)"
| "extract_members exact extract_file_name save_unzipped_folder zip_file (file_name # rest) filepath file_found w =
     (if exact then
        (if extract_file_name = file_name then
           (let w1 = zip_extract zip_file file_name save_unzipped_folder w;
                filepath1 = save_unzipped_folder @ [CHR 0x5C] @ file_name;
                w2 = print (''Unzipped attachment saved as '' @ filepath1) w1
            in extract_members exact extract_file_name save_unzipped_folder zip_file rest filepath1 True w2)
         else extract_members exact extract_file_name save_unzipped_folder zip_file rest filepath file_found w)
      else
        (if str_in extract_file_name file_name then
           (let w1 = zip_extract zip_file file_name save_unzipped_folder w;
                filepath1 = save_unzipped_folder @ [CHR 0x5C] @ file_name;
                w2 = print (''Unzipped attachment saved as '' @ filepath1) w1
            in extract_members exact extract_file_name save_unzipped_folder zip_file rest filepath1 True w2)
         else extract_members exact extract_file_name save_unzipped_folder zip_file rest filepath file_found w))"

text \<open>
  Line 163 prints the loop variable \<^verbatim>\<open>file_name\<close>, which after the loop is the last
  member name, and is not bound when the archive has no member.
\<close>

definition extract_zip_content :: "outlook_attachment \<Rightarrow> world \<Rightarrow> string \<Rightarrow> string \<Rightarrow> string \<Rightarrow> bool \<Rightarrow> outcome" where
  "extract_zip_content self w filepath extract_file_name save_unzipped_folder exact =
     (if \<not> is_zipfile w filepath then
        (Inr PyNone, self,
         print (filepath @ '' is not a zip file; therefore it cannot be unzipped.'') w)
      else
        (let zip_file = ZipFile w filepath in
         case extract_members exact extract_file_name save_unzipped_folder zip_file
                (namelist zip_file) filepath False w of
           (filepath1, file_found, w1) \<Rightarrow>
             if \<not> file_found then
               (case namelist zip_file of
                  [] \<Rightarrow> (Inl (UnboundLocalError ''file_name''), self, w1)
                | _ \<Rightarrow> (Inr PyNone, self,
                        print (''Could not find file '' @ last (namelist zip_file) @ '' in zipfile.'') w1))
             else (Inr PyNone, self, w1)))"

section \<open>Vocabulary of the properties\<close>


text \<open>
  The time stamp a bound denotes once it is formatted with \<^verbatim>\<open>%m/%d/%Y %H:%M %p\<close>: the
  same minute, at second zero.
\<close>

definition minute_floor :: "datetime \<Rightarrow> datetime" where
  "minute_floor d = d\<lparr>second := 0, microsecond := 0\<rparr>"

text \<open>
  An email is kept by the two filters of lines 80 and 85 when it was received between the
  two bounds as the filters pass them to the mail client.
\<close>

definition in_filter :: "datetime \<Rightarrow> datetime \<Rightarrow> email \<Rightarrow> bool" where
  "in_filter s e m =
     (dt_le (minute_floor s) (ReceivedTime m) \<and> dt_le (ReceivedTime m) (minute_floor e))"

text \<open>An email matches a query: it has the subject and carries an attachment of the name.\<close>

definition matches :: "string \<Rightarrow> string \<Rightarrow> email \<Rightarrow> bool" where
  "matches email_subject_name email_attachment_name m =
     (Subject m = email_subject_name \<and> email_attachment_name \<in> set (map FileName (Attachments m)))"

definition latest_first :: "email list \<Rightarrow> bool" where
  "latest_first ms = sorted_wrt (\<lambda>a b. dt_le (ReceivedTime b) (ReceivedTime a)) ms"

text \<open>Two worlds with the same disk and the same mailbox.\<close>

definition same_disk :: "world \<Rightarrow> world \<Rightarrow> bool" where
  "same_disk w w' = (files w' = files w \<and> locked w' = locked w \<and> mailbox w' = mailbox w)"

text \<open>The member names the loop of \<^verbatim>\<open>extract_zip_content\<close> extracts, and what it prints for one.\<close>

definition wanted :: "bool \<Rightarrow> string \<Rightarrow> string \<Rightarrow> bool" where
  "wanted exact extract_file_name file_name =
     (if exact then extract_file_name = file_name else str_in extract_file_name file_name)"

definition unzipped_report :: "string \<Rightarrow> string \<Rightarrow> string" where
  "unzipped_report save_unzipped_folder file_name =
     ''Unzipped attachment saved as '' @ save_unzipped_folder @ [CHR 0x5C] @ file_name"

section \<open>Example data\<close>

text \<open>
  The scenario of the program's own example and of the spec: a folder \<^verbatim>\<open>Reports\<close> below
  \<^verbatim>\<open>Inbox\<close>, emails with the subject \<^verbatim>\<open>Daily Export\<close> and an attachment
  \<^verbatim>\<open>export.zip\<close>, received on 27 July 2021.
\<close>

definition july27 :: "nat \<Rightarrow> nat \<Rightarrow> nat \<Rightarrow> datetime" where
  "july27 h m s =
     \<lparr>year = 2021, month = 7, day = 27, hour = h, minute = m, second = s, microsecond = 0\<rparr>"

definition export_mail :: "datetime \<Rightarrow> string \<Rightarrow> email" where
  "export_mail t c =
     \<lparr>Subject = ''Daily Export'', ReceivedTime = t,
      Attachments = [\<lparr>FileName = ''export.zip'', Content = Bytes c\<rparr>]\<rparr>"

definition reports_mailbox :: "email list \<Rightarrow> world" where
  "reports_mailbox ms =
     \<lparr>stdout = [], mailbox = [Folder ''Inbox'' [] [Folder ''Reports'' ms []]],
      calls = [], files = [], locked = []\<rparr>"

definition tmp_export :: string where
  "tmp_export = ''C:'' @ [CHR 0x5C] @ ''tmp'' @ [CHR 0x5C] @ ''export.zip''"

definition tmp_out :: string where
  "tmp_out = ''C:'' @ [CHR 0x5C] @ ''tmp'' @ [CHR 0x5C] @ ''out''"

definition disk_with :: "string \<Rightarrow> payload \<Rightarrow> world" where
  "disk_with path c = \<lparr>stdout = [], mailbox = [], calls = [], files = [(path, c)], locked = []\<rparr>"

section \<open>Properties of the interval helper\<close>

lemma dt_le_refl: "dt_le a a"
  by (simp add: dt_le_def)

lemma dt_le_trans: "dt_le a b \<Longrightarrow> dt_le b c \<Longrightarrow> dt_le a c"
  unfolding dt_le_def by (rule order_trans)

lemma dt_le_total: "dt_le a b \<or> dt_le b a"
  unfolding dt_le_def by (rule linear)

lemma dt_less_not_le: "dt_less a b = (\<not> dt_le b a)"
  unfolding dt_le_def dt_less_def by (rule less_le_not_le [THEN trans]) auto

lemma datetime_ymd_le: "dt_le (datetime_ymd (year d) (month d) (day d)) d"
  by (simp add: dt_le_def dt_key_def datetime_ymd_def less_eq_prod_def)






section \<open>What the mail client receives\<close>

text \<open>
  The filter strings carry the month, day, year, hour and minute of a bound and nothing
  else, so the mail client compares with the bound at second zero of its minute.
\<close>

lemma below_ten: "n < 10 \<Longrightarrow> n \<in> {0, 1, 2, 3, 4, 5, 6, 7, 8, 9::nat}"
  by auto

lemma digit_val_digit: "digit_val (digit n) = Some (n mod 10)"
proof -
  have "n mod 10 < 10" by simp
  from below_ten [OF this] show ?thesis
    by (auto simp add: digit_val_def digit_def)
qed

lemma number_two: "n < 100 \<Longrightarrow> number [digit (n div 10), digit n] 0 = Some n"
  by (simp add: digit_val_digit)

lemma number_four:
  assumes "n < 10000"
  shows "number [digit (n div 1000), digit (n div 100), digit (n div 10), digit n] 0 = Some n"
proof -
  have "n div 1000 mod 10 = n div 1000" using assms by simp
  moreover have "n div 100 = n div 10 div 10" "n div 1000 = n div 10 div 10 div 10"
    by (simp_all add: div_mult2_eq)
  then have "10 * (10 * (10 * (n div 1000) + n div 100 mod 10) + n div 10 mod 10) + n mod 10 = n"
    by simp
  ultimately show ?thesis by (simp add: digit_val_digit)
qed

lemma strftime_HMp:
  "strftime d ''%m/%d/%Y %H:%M %p'' =
     pad2 (month d) @ ''/'' @ pad2 (day d) @ ''/'' @ pad4 (year d) @ '' '' @
     pad2 (hour d) @ '':'' @ pad2 (minute d) @ '' '' @ (if hour d < 12 then ''AM'' else ''PM'')"
  by (simp add: directive_def)

lemma parse_stamp_strftime:
  assumes "valid_datetime d"
  shows "parse_stamp (strftime d ''%m/%d/%Y %H:%M %p'' @ [CHR 0x27]) = Some (minute_floor d)"
proof -
  have b: "month d < 100" "day d < 100" "year d < 10000" "hour d < 100" "minute d < 100"
    using assms by (simp_all add: valid_datetime_def)
  show ?thesis
    unfolding strftime_HMp parse_stamp_def pad2_def pad4_def
    by (simp add: number_two [OF b(1)] number_two [OF b(2)] number_four [OF b(3)]
        number_two [OF b(4)] number_two [OF b(5)] minute_floor_def del: number.simps)
qed

lemma Restrict_ge:
  assumes "valid_datetime d"
  shows "Restrict (''[ReceivedTime] '' @ ''>='' @ '' '' @ quoted (strftime d ''%m/%d/%Y %H:%M %p'')) emails =
         Inr (filter (\<lambda>m. dt_le (minute_floor d) (ReceivedTime m)) emails)"
  using parse_stamp_strftime [OF assms] by (simp add: Restrict_def quoted_def)

lemma Restrict_le:
  assumes "valid_datetime d"
  shows "Restrict (''[ReceivedTime] '' @ ''<='' @ '' '' @ quoted (strftime d ''%m/%d/%Y %H:%M %p'')) emails =
         Inr (filter (\<lambda>m. dt_le (ReceivedTime m) (minute_floor d)) emails)"
  using parse_stamp_strftime [OF assms] by (simp add: Restrict_def quoted_def)

section \<open>Sorting and scanning\<close>

lemma set_insert_desc: "set (insert_desc m xs) = insert m (set xs)"
  by (induction xs) auto

lemma set_Sort: "set (Sort xs) = set xs"
  unfolding Sort_def by (induction xs) (simp_all add: set_insert_desc)

lemma latest_first_insert_desc:
  "latest_first xs \<Longrightarrow> latest_first (insert_desc m xs)"
proof (induction xs)
  case Nil
  then show ?case by (simp add: latest_first_def)
next
  case (Cons x xs)
  show ?case
  proof (cases "dt_less (ReceivedTime x) (ReceivedTime m)")
    case True
    then have le: "dt_le (ReceivedTime x) (ReceivedTime m)"
      using dt_le_total [of "ReceivedTime x" "ReceivedTime m"] by (simp add: dt_less_not_le)
    have "\<forall>y\<in>set xs. dt_le (ReceivedTime y) (ReceivedTime m)"
      using Cons.prems le by (auto simp add: latest_first_def intro: dt_le_trans)
    with True le Cons.prems show ?thesis
      by (simp add: latest_first_def)
  next
    case False
    then have "dt_le (ReceivedTime m) (ReceivedTime x)"
      by (simp add: dt_less_not_le)
    with False Cons show ?thesis
      by (auto simp add: latest_first_def set_insert_desc)
  qed
qed

lemma latest_first_Sort: "latest_first (Sort xs)"
  unfolding Sort_def
  by (induction xs) (simp_all add: latest_first_insert_desc, simp add: latest_first_def)

lemma scan_attachments_find:
  "scan_attachments self w save name atts =
     map_option (deliver self w save) (find (\<lambda>a. FileName a = name) atts)"
  by (induction atts) simp_all

lemma find_attachment_None:
  "(find (\<lambda>a. FileName a = name) atts = None) = (name \<notin> set (map FileName atts))"
  by (auto simp add: find_None_iff)

lemma scan_emails_find:
  "scan_emails self w save subj name ms =
     (case find (matches subj name) ms of
        None \<Rightarrow> None
      | Some m \<Rightarrow> map_option (deliver self w save) (find (\<lambda>a. FileName a = name) (Attachments m)))"
proof (induction ms)
  case Nil
  then show ?case by simp
next
  case (Cons m ms)
  show ?case
  proof (cases "matches subj name m")
    case True
    then obtain a where "find (\<lambda>a. FileName a = name) (Attachments m) = Some a"
      using find_attachment_None [of name "Attachments m"] by (auto simp add: matches_def)
    with True show ?thesis
      by (simp add: scan_attachments_find matches_def)
  next
    case False
    then have "Subject m = subj \<Longrightarrow> find (\<lambda>a. FileName a = name) (Attachments m) = None"
      by (simp add: find_attachment_None matches_def)
    with False Cons show ?thesis
      by (simp add: scan_attachments_find)
  qed
qed

lemma find_latest:
  assumes "latest_first ms" and "find P ms = Some m" and "x \<in> set ms" and "P x"
  shows "dt_le (ReceivedTime x) (ReceivedTime m)"
  using assms
proof (induction ms)
  case Nil
  then show ?case by simp
next
  case (Cons y ys)
  show ?case
  proof (cases "P y")
    case True
    with Cons.prems have "m = y" by simp
    with Cons.prems show ?thesis
      by (auto simp add: latest_first_def dt_le_refl)
  next
    case False
    with Cons show ?thesis
      by (auto simp add: latest_first_def)
  qed
qed

section \<open>The outcomes of \<^verbatim>\<open>get_attachment\<close>\<close>

lemma same_disk_refl: "same_disk w w"
  by (simp add: same_disk_def)

lemma same_disk_trans: "same_disk w w1 \<Longrightarrow> same_disk w1 w2 \<Longrightarrow> same_disk w w2"
  by (simp add: same_disk_def)

lemma same_disk_print: "same_disk w (print s w)"
  by (simp add: same_disk_def print_def)

lemma same_disk_called: "same_disk w (called c w)"
  by (simp add: same_disk_def called_def)

lemma print_interval_same_disk:
  "print_interval si ei w = (r, w1) \<Longrightarrow> same_disk w w1 \<and> calls w1 = calls w"
  by (auto simp add: print_interval_def same_disk_def print_def Let_def split: option.splits)

lemma Restrict_subset: "Restrict flt emails = Inr ms \<Longrightarrow> set ms \<subseteq> set emails"
  by (auto simp add: Restrict_def split: if_splits option.splits)

lemma restrict_bound_same_disk:
  "restrict_bound rel b emails w = (r, w1) \<Longrightarrow> same_disk w w1"
  by (auto simp add: restrict_bound_def same_disk_def called_def Let_def split: option.splits)

lemma restrict_bound_subset:
  "restrict_bound rel b emails w = (Inr ms, w1) \<Longrightarrow> set ms \<subseteq> set emails"
  by (auto simp add: restrict_bound_def Let_def split: option.splits dest: Restrict_subset)

lemma folder_items_same_disk: "same_disk w w1 \<Longrightarrow> folder_items w1 fp = folder_items w fp"
  by (simp add: folder_items_def same_disk_def)

lemma scan_emails_Some:
  assumes "scan_emails self w save subj name ms = Some out"
  shows "\<exists>m a. m \<in> set ms \<and> matches subj name m \<and> find (matches subj name) ms = Some m \<and>
           a \<in> set (Attachments m) \<and> FileName a = name \<and> out = deliver self w save a"
proof -
  from assms obtain m where m: "find (matches subj name) ms = Some m"
    by (auto simp add: scan_emails_find split: option.splits)
  with assms obtain a where a: "find (\<lambda>a. FileName a = name) (Attachments m) = Some a"
    and out: "out = deliver self w save a"
    by (auto simp add: scan_emails_find)
  from m have "m \<in> set ms" "matches subj name m"
    by (auto simp add: find_Some_iff)
  moreover from a have "a \<in> set (Attachments m)" "FileName a = name"
    by (auto simp add: find_Some_iff)
  ultimately show ?thesis using m out by blast
qed

lemma scan_emails_None:
  "(scan_emails self w save subj name ms = None) = (\<forall>m\<in>set ms. \<not> matches subj name m)"
proof (cases "find (matches subj name) ms")
  case None
  then have "scan_emails self w save subj name ms = None"
    by (simp add: scan_emails_find)
  moreover from None have "\<forall>m\<in>set ms. \<not> matches subj name m"
    by (simp add: find_None_iff)
  ultimately show ?thesis by simp
next
  case (Some m)
  then have m: "m \<in> set ms" "matches subj name m"
    by (auto simp add: find_Some_iff)
  then have "find (\<lambda>a. FileName a = name) (Attachments m) \<noteq> None"
    by (simp add: find_attachment_None matches_def)
  with Some m show ?thesis
    by (auto simp add: scan_emails_find)
qed

lemma get_attachment_outcome:
  assumes "get_attachment self w fp subj name si ei save = out"
  shows "(\<exists>err w1. out = (Inl err, self, w1) \<and> same_disk w w1) \<or>
         (\<exists>w5 emails ms m a. folder_items w fp = Inr emails \<and> set ms \<subseteq> set emails \<and>
             m \<in> set ms \<and> Subject m = subj \<and> a \<in> set (Attachments m) \<and> FileName a = name \<and>
             same_disk w w5 \<and> check_save_attachment_as save = None \<and>
             out = deliver self w5 save a)"
proof (cases "check_save_attachment_as save")
  case (Some err)
  with assms show ?thesis
    by (auto simp add: get_attachment_def same_disk_refl)
next
  case c1: None
  show ?thesis
  proof (cases "check_interval si ei")
    case (Some err)
    with c1 assms show ?thesis
      by (auto simp add: get_attachment_def same_disk_refl)
  next
    case c2: None
    obtain r1 w1 where p: "print_interval si ei w = (r1, w1)"
      by (cases "print_interval si ei w")
    then have d1: "same_disk w w1"
      by (simp add: print_interval_same_disk)
    show ?thesis
    proof (cases r1)
      case (Some err)
      with c1 c2 p d1 assms show ?thesis
        by (auto simp add: get_attachment_def)
    next
      case c3: None
      define w2 where "w2 = called EvDispatch w1"
      have d2: "same_disk w w2"
        unfolding w2_def using d1 same_disk_called by (rule same_disk_trans)
      show ?thesis
      proof (cases "folder_items w2 fp")
        case (Inl err)
        with c1 c2 c3 p d2 assms show ?thesis
          by (auto simp add: get_attachment_def w2_def)
      next
        case c4: (Inr emails)
        then have f: "folder_items w fp = Inr emails"
          using folder_items_same_disk [OF d2] by simp
        obtain r3 w3 where b3: "restrict_bound ''>='' si emails w2 = (r3, w3)"
          by (cases "restrict_bound ''>='' si emails w2")
        have d3: "same_disk w w3"
          using d2 restrict_bound_same_disk [OF b3] by (rule same_disk_trans)
        show ?thesis
        proof (cases r3)
          case (Inl err)
          with c1 c2 c3 c4 p b3 d3 assms show ?thesis
            by (auto simp add: get_attachment_def w2_def)
        next
          case c5: (Inr emails1)
          with b3 have s1: "set emails1 \<subseteq> set emails"
            by (auto dest: restrict_bound_subset)
          obtain r4 w4 where b4: "restrict_bound ''<='' ei emails1 w3 = (r4, w4)"
            by (cases "restrict_bound ''<='' ei emails1 w3")
          have d4: "same_disk w w4"
            using d3 restrict_bound_same_disk [OF b4] by (rule same_disk_trans)
          show ?thesis
          proof (cases r4)
            case (Inl err)
            with c1 c2 c3 c4 c5 p b3 b4 d4 assms show ?thesis
              by (auto simp add: get_attachment_def w2_def)
          next
            case c6: (Inr emails2)
            with b4 s1 have s2: "set emails2 \<subseteq> set emails"
              by (auto dest: restrict_bound_subset)
            define w5 where "w5 = called EvSort w4"
            have d5: "same_disk w w5"
              unfolding w5_def using d4 same_disk_called by (rule same_disk_trans)
            have g: "out = (case scan_emails self w5 save subj name (Sort emails2) of
                       Some r \<Rightarrow> r | None \<Rightarrow> (Inl (not_found subj name), self, w5))"
              using c1 c2 c3 c4 c5 c6 p b3 b4 assms unfolding w2_def w5_def
              by (auto simp add: get_attachment_def Let_def)
            show ?thesis
            proof (cases "scan_emails self w5 save subj name (Sort emails2)")
              case None
              with g d5 show ?thesis by auto
            next
              case (Some r)
              from scan_emails_Some [OF Some] obtain m a where
                ma: "m \<in> set (Sort emails2)" "matches subj name m" "a \<in> set (Attachments m)"
                "FileName a = name" "r = deliver self w5 save a"
                by blast
              from ma(1) s2 have "m \<in> set emails2" "set emails2 \<subseteq> set emails"
                by (simp_all add: set_Sort)
              moreover from ma(2) have "Subject m = subj"
                by (simp add: matches_def)
              moreover from g Some ma(5) have "out = deliver self w5 save a"
                by simp
              ultimately have "\<exists>w5 emails ms m a. folder_items w fp = Inr emails \<and>
                  set ms \<subseteq> set emails \<and> m \<in> set ms \<and> Subject m = subj \<and>
                  a \<in> set (Attachments m) \<and> FileName a = name \<and> same_disk w w5 \<and>
                  check_save_attachment_as save = None \<and> out = deliver self w5 save a"
                using f d5 c1 ma(3,4) by blast
              then show ?thesis ..
            qed
          qed
        qed
      qed
    qed
  qed
qed

lemma deliver_failure: "deliver self w save a = (Inl err, self1, w1) \<Longrightarrow> self1 = self"
  by (auto simp add: deliver_def Let_def split: option.splits)

lemma deliver_success:
  assumes "deliver self w save a = (Inr r, self1, w1)"
  shows "case save of
           Some p \<Rightarrow> r = PyNone \<and> attachment_filepath self1 = Some p \<and>
                     map_of (files w1) p = Some (Content a)
         | None \<Rightarrow> r = PyAttachment a \<and> self1 = self \<and> w1 = w"
  using assms
  by (auto simp add: deliver_def SaveAsFile_def print_def called_def Let_def
      split: option.splits if_splits)

lemma check_interval_ordered: "\<not> dt_less e s \<Longrightarrow> check_interval (Some s) (Some e) = None"
  by (simp add: check_interval_def)

lemma restrict_bound_ge:
  assumes "valid_datetime s"
  shows "fst (restrict_bound ''>='' (Some s) emails w) =
         Inr (filter (\<lambda>m. dt_le (minute_floor s) (ReceivedTime m)) emails)"
proof -
  have "restrict_bound ''>='' (Some s) emails w =
          (Restrict (''[ReceivedTime] '' @ ''>='' @ '' '' @ quoted (strftime s ''%m/%d/%Y %H:%M %p'')) emails,
           called (EvRestrict (''[ReceivedTime] '' @ ''>='' @ '' '' @ quoted (strftime s ''%m/%d/%Y %H:%M %p''))) w)"
    by (simp only: restrict_bound_def option.case Let_def)
  then show ?thesis
    by (simp only: Restrict_ge [OF assms] fst_conv)
qed

lemma restrict_bound_le:
  assumes "valid_datetime e"
  shows "fst (restrict_bound ''<='' (Some e) emails w) =
         Inr (filter (\<lambda>m. dt_le (ReceivedTime m) (minute_floor e)) emails)"
proof -
  have "restrict_bound ''<='' (Some e) emails w =
          (Restrict (''[ReceivedTime] '' @ ''<='' @ '' '' @ quoted (strftime e ''%m/%d/%Y %H:%M %p'')) emails,
           called (EvRestrict (''[ReceivedTime] '' @ ''<='' @ '' '' @ quoted (strftime e ''%m/%d/%Y %H:%M %p''))) w)"
    by (simp only: restrict_bound_def option.case Let_def)
  then show ?thesis
    by (simp only: Restrict_le [OF assms] fst_conv)
qed

lemma get_attachment_searches:
  assumes "check_save_attachment_as save = None" and "\<not> dt_less e s"
      and "valid_datetime s" and "valid_datetime e"
      and "folder_items w fp = Inr emails"
  shows "\<exists>w5. same_disk w w5 \<and>
           get_attachment self w fp subj name (Some s) (Some e) save =
             (case scan_emails self w5 save subj name (Sort (filter (in_filter s e) emails)) of
                Some out \<Rightarrow> out
              | None \<Rightarrow> (Inl (not_found subj name), self, w5))"
proof -
  obtain w1 where p: "print_interval (Some s) (Some e) w = (None, w1)"
    by (simp add: print_interval_def Let_def)
  then have d1: "same_disk w w1"
    by (simp add: print_interval_same_disk)
  define w2 where "w2 = called EvDispatch w1"
  have d2: "same_disk w w2"
    unfolding w2_def using d1 same_disk_called by (rule same_disk_trans)
  have f: "folder_items w2 fp = Inr emails"
    using folder_items_same_disk [OF d2] assms(5) by simp
  define emails1 where "emails1 = filter (\<lambda>m. dt_le (minute_floor s) (ReceivedTime m)) emails"
  define emails2 where "emails2 = filter (\<lambda>m. dt_le (ReceivedTime m) (minute_floor e)) emails1"
  obtain w3 where b3: "restrict_bound ''>='' (Some s) emails w2 = (Inr emails1, w3)"
    using restrict_bound_ge [OF assms(3), of emails w2] unfolding emails1_def
    by (cases "restrict_bound ''>='' (Some s) emails w2") simp
  obtain w4 where b4: "restrict_bound ''<='' (Some e) emails1 w3 = (Inr emails2, w4)"
    using restrict_bound_le [OF assms(4), of emails1 w3] unfolding emails2_def
    by (cases "restrict_bound ''<='' (Some e) emails1 w3") simp
  have d4: "same_disk w w4"
    using d2 restrict_bound_same_disk [OF b3] restrict_bound_same_disk [OF b4]
    by (blast intro: same_disk_trans)
  have d5: "same_disk w (called EvSort w4)"
    using d4 same_disk_called by (rule same_disk_trans)
  have e2: "emails2 = filter (in_filter s e) emails"
    by (auto simp add: emails2_def emails1_def in_filter_def intro: filter_cong)
  have "get_attachment self w fp subj name (Some s) (Some e) save =
          (case scan_emails self (called EvSort w4) save subj name (Sort emails2) of
             Some out \<Rightarrow> out
           | None \<Rightarrow> (Inl (not_found subj name), self, called EvSort w4))"
    using assms(1) check_interval_ordered [OF assms(2)] p f b3 b4 unfolding w2_def
    by (simp add: get_attachment_def Let_def)
  with d5 e2 show ?thesis by auto
qed

lemma get_attachment_not_found:
  assumes "check_save_attachment_as save = None" and "\<not> dt_less e s"
      and "valid_datetime s" and "valid_datetime e"
      and "folder_items w fp = Inr emails"
      and "\<forall>m\<in>set emails. in_filter s e m \<longrightarrow> \<not> matches subj name m"
  shows "fst (get_attachment self w fp subj name (Some s) (Some e) save) = Inl (not_found subj name)"
proof -
  from get_attachment_searches [OF assms(1-5)] obtain w5 where
    g: "get_attachment self w fp subj name (Some s) (Some e) save =
          (case scan_emails self w5 save subj name (Sort (filter (in_filter s e) emails)) of
             Some out \<Rightarrow> out
           | None \<Rightarrow> (Inl (not_found subj name), self, w5))"
    by blast
  have "scan_emails self w5 save subj name (Sort (filter (in_filter s e) emails)) = None"
    using assms(6) by (simp add: scan_emails_None set_Sort)
  with g show ?thesis by simp
qed

lemma get_attachment_selects:
  assumes "check_save_attachment_as save = None" and "\<not> dt_less e s"
      and "valid_datetime s" and "valid_datetime e"
      and "folder_items w fp = Inr emails"
      and "x \<in> set emails" and "in_filter s e x" and "matches subj name x"
  shows "\<exists>w5 m a. same_disk w w5 \<and> m \<in> set emails \<and> in_filter s e m \<and> matches subj name m \<and>
           a \<in> set (Attachments m) \<and> FileName a = name \<and>
           (\<forall>y\<in>set emails. in_filter s e y \<and> matches subj name y \<longrightarrow>
                dt_le (ReceivedTime y) (ReceivedTime m)) \<and>
           get_attachment self w fp subj name (Some s) (Some e) save = deliver self w5 save a"
proof -
  let ?ms = "Sort (filter (in_filter s e) emails)"
  from get_attachment_searches [OF assms(1-5)] obtain w5 where
    d: "same_disk w w5" and
    g: "get_attachment self w fp subj name (Some s) (Some e) save =
          (case scan_emails self w5 save subj name ?ms of
             Some out \<Rightarrow> out
           | None \<Rightarrow> (Inl (not_found subj name), self, w5))"
    by blast
  have "scan_emails self w5 save subj name ?ms \<noteq> None"
    using assms(6-8) by (auto simp add: scan_emails_None set_Sort)
  then obtain out where s: "scan_emails self w5 save subj name ?ms = Some out"
    by blast
  from scan_emails_Some [OF s] obtain m a where
    ma: "m \<in> set ?ms" "matches subj name m" "find (matches subj name) ?ms = Some m"
        "a \<in> set (Attachments m)" "FileName a = name" "out = deliver self w5 save a"
    by blast
  have latest: "dt_le (ReceivedTime y) (ReceivedTime m)"
    if "y \<in> set emails" "in_filter s e y" "matches subj name y" for y
  proof -
    from that have "y \<in> set ?ms" by (simp add: set_Sort)
    with latest_first_Sort ma(3) show ?thesis
      using that(3) by (rule find_latest)
  qed
  from ma(1) have "m \<in> set emails" "in_filter s e m"
    by (simp_all add: set_Sort)
  moreover from g s ma(6)
  have "get_attachment self w fp subj name (Some s) (Some e) save = deliver self w5 save a"
    by simp
  ultimately show ?thesis
    using d ma(2,4,5) latest by blast
qed

section \<open>The loop of \<^verbatim>\<open>extract_zip_content\<close>\<close>

lemma str_in_iff: "str_in xs ys = (\<exists>ps ss. ys = ps @ xs @ ss)"
proof (induction ys)
  case Nil
  then show ?case by auto
next
  case (Cons y ys)
  have "(take (length xs) (y # ys) = xs) = (\<exists>ss. y # ys = xs @ ss)"
    by (metis append_eq_conv_conj)
  moreover have "(\<exists>ps ss. y # ys = ps @ xs @ ss) =
                 ((\<exists>ss. y # ys = xs @ ss) \<or> (\<exists>ps ss. ys = ps @ xs @ ss))"
  proof
    assume "\<exists>ps ss. y # ys = ps @ xs @ ss"
    then obtain ps ss where e: "y # ys = ps @ xs @ ss" by blast
    show "(\<exists>ss. y # ys = xs @ ss) \<or> (\<exists>ps ss. ys = ps @ xs @ ss)"
    proof (cases ps)
      case Nil
      with e show ?thesis by auto
    next
      case (Cons p ps')
      with e have "ys = ps' @ xs @ ss" by simp
      then show ?thesis by blast
    qed
  next
    assume "(\<exists>ss. y # ys = xs @ ss) \<or> (\<exists>ps ss. ys = ps @ xs @ ss)"
    then show "\<exists>ps ss. y # ys = ps @ xs @ ss"
    proof
      assume "\<exists>ss. y # ys = xs @ ss"
      then obtain ss where "y # ys = [] @ xs @ ss" by auto
      then show ?thesis by blast
    next
      assume "\<exists>ps ss. ys = ps @ xs @ ss"
      then obtain ps ss where "y # ys = (y # ps) @ xs @ ss" by auto
      then show ?thesis by blast
    qed
  qed
  ultimately show ?case using Cons.IH by simp
qed

lemma extract_members_effect:
  "extract_members exact t folder zf names fp found w = (fp1, found1, w1) \<Longrightarrow>
     calls w1 = calls w @ map (\<lambda>n. EvExtract n folder) (filter (wanted exact t) names) \<and>
     stdout w1 = stdout w @ map (unzipped_report folder) (filter (wanted exact t) names) \<and>
     found1 = (found \<or> filter (wanted exact t) names \<noteq> []) \<and>
     locked w1 = locked w \<and> mailbox w1 = mailbox w \<and>
     (filter (wanted exact t) names = [] \<longrightarrow> w1 = w)"
proof (induction names arbitrary: fp found w)
  case Nil
  then show ?case by simp
next
  case (Cons n names)
  show ?case
  proof (cases "wanted exact t n")
    case True
    define w2 where "w2 = print (unzipped_report folder n) (zip_extract zf n folder w)"
    from True Cons.prems
    have "extract_members exact t folder zf names (folder @ [CHR 0x5C] @ n) True w2 = (fp1, found1, w1)"
      by (auto simp add: wanted_def w2_def unzipped_report_def Let_def split: if_splits)
    from Cons.IH [OF this] True show ?thesis
      by (simp add: w2_def print_def zip_extract_def called_def)
  next
    case False
    with Cons.prems
    have "extract_members exact t folder zf names fp found w = (fp1, found1, w1)"
      by (auto simp add: wanted_def split: if_splits)
    from Cons.IH [OF this] False show ?thesis
      by simp
  qed
qed

lemma extract_zip_content_not_zip:
  "\<not> is_zipfile w filepath \<Longrightarrow>
   extract_zip_content self w filepath t folder exact =
     (Inr PyNone, self, print (filepath @ '' is not a zip file; therefore it cannot be unzipped.'') w)"
  by (simp add: extract_zip_content_def)

lemma extract_zip_content_no_member_found:
  assumes "map_of (files w) filepath = Some (Archive zf)"
      and "zf \<noteq> []"
      and "\<forall>n\<in>set (namelist zf). \<not> wanted exact t n"
  shows "extract_zip_content self w filepath t folder exact =
     (Inr PyNone, self, print (''Could not find file '' @ last (namelist zf) @ '' in zipfile.'') w)"
proof -
  obtain fp1 found1 w1 where
    e: "extract_members exact t folder zf (namelist zf) filepath False w = (fp1, found1, w1)"
    by (cases "extract_members exact t folder zf (namelist zf) filepath False w") auto
  from assms(3) have "filter (wanted exact t) (namelist zf) = []"
    by (simp add: filter_empty_conv)
  with extract_members_effect [OF e] have "\<not> found1" "w1 = w"
    by simp_all
  with e assms(1,2) show ?thesis
    by (cases zf) (simp_all add: extract_zip_content_def is_zipfile_def ZipFile_def namelist_def)
qed

section \<open>The claims about \<^verbatim>\<open>get_attachment\<close>\<close>

text \<open>
  Claim C1. With several emails that match the query and lie within the given interval,
  \<^verbatim>\<open>get_attachment\<close> should return the attachment of the one received last. The end
  bound reaches the mail client without its seconds, so a match received in the last,
  partial minute of the interval is filtered out before the sort: here two matching emails
  were received at 09:00:00 and at 12:00:10, both within the interval from 01:00:00 to
  12:00:30, and the call returns the attachment of the email of 09:00:00. Among the
  emails the two filters keep, the scan does return the latest match
  (lemma \<open>get_attachment_selects\<close>).
\<close>

theorem get_attachment_misses_last_minute:
  "fst (get_attachment init
          (reports_mailbox [export_mail (july27 9 0 0) ''early'', export_mail (july27 12 0 10) ''late''])
          [''Inbox'', ''Reports''] ''Daily Export'' ''export.zip''
          (Some (july27 1 0 0)) (Some (july27 12 0 30)) None)
     = Inr (PyAttachment \<lparr>FileName = ''export.zip'', Content = Bytes ''early''\<rparr>) \<and>
   dt_le (july27 1 0 0) (july27 12 0 10) \<and> dt_le (july27 12 0 10) (july27 12 0 30) \<and>
   dt_less (july27 9 0 0) (july27 12 0 10)"
  by code_simp

text \<open>
  Claim C2, as stated: a successful call with a destination path returns a saved result
  that refers to the path. The call returns \<^verbatim>\<open>None\<close>, not the path: here the two emails
  of the spec's scenario, saved at \<^verbatim>\<open>C:\tmp\export.zip\<close>.
\<close>

theorem get_attachment_saved_returns_None:
  "fst (get_attachment init
          (reports_mailbox [export_mail (july27 3 0 0) ''early'', export_mail (july27 9 0 0) ''late''])
          [''Inbox'', ''Reports''] ''Daily Export'' ''export.zip''
          (Some (july27 1 0 0)) (Some (july27 12 0 0)) (Some tmp_export))
     = Inr PyNone \<and>
   fst (get_attachment init
          (reports_mailbox [export_mail (july27 3 0 0) ''early'', export_mail (july27 9 0 0) ''late''])
          [''Inbox'', ''Reports''] ''Daily Export'' ''export.zip''
          (Some (july27 1 0 0)) (Some (july27 12 0 0)) (Some tmp_export))
     \<noteq> Inr (PyStr tmp_export)"
  by code_simp

text \<open>
  Claim C2, amended. A successful call of \<^verbatim>\<open>get_attachment\<close> found, in the folder of
  the path, an email with the subject and an attachment with the name. With a destination
  path it wrote the content of that attachment at the path, recorded the path in
  \<^verbatim>\<open>attachment_filepath\<close> and returned \<^verbatim>\<open>None\<close>; without one it returned the attachment
  and left the object and the disk as they were. The two kinds of result exclude each
  other.
\<close>

theorem get_attachment_success:
  assumes "get_attachment self w fp subj name si ei save = (Inr r, self1, w1)"
  shows "\<exists>emails m a. folder_items w fp = Inr emails \<and> m \<in> set emails \<and> Subject m = subj \<and>
           a \<in> set (Attachments m) \<and> FileName a = name \<and>
           (case save of
              Some p \<Rightarrow> r = PyNone \<and> attachment_filepath self1 = Some p \<and>
                        map_of (files w1) p = Some (Content a)
            | None \<Rightarrow> r = PyAttachment a \<and> self1 = self \<and> files w1 = files w)"
proof -
  from get_attachment_outcome [OF assms] obtain w5 emails ms m a where
    h: "folder_items w fp = Inr emails" "set ms \<subseteq> set emails" "m \<in> set ms" "Subject m = subj"
       "a \<in> set (Attachments m)" "FileName a = name" "same_disk w w5"
       "deliver self w5 save a = (Inr r, self1, w1)"
    by auto
  from deliver_success [OF h(8)] h(7)
  have "case save of
          Some p \<Rightarrow> r = PyNone \<and> attachment_filepath self1 = Some p \<and>
                    map_of (files w1) p = Some (Content a)
        | None \<Rightarrow> r = PyAttachment a \<and> self1 = self \<and> files w1 = files w"
    by (auto simp add: same_disk_def split: option.splits)
  with h show ?thesis by blast
qed

theorem get_attachment_success_witness:
  "fst (get_attachment init
          (reports_mailbox [export_mail (july27 3 0 0) ''early'', export_mail (july27 9 0 0) ''late''])
          [''Inbox'', ''Reports''] ''Daily Export'' ''export.zip''
          (Some (july27 1 0 0)) (Some (july27 12 0 0)) (Some tmp_export)) = Inr PyNone \<and>
   (\<exists>emails m a.
      folder_items
        (reports_mailbox [export_mail (july27 3 0 0) ''early'', export_mail (july27 9 0 0) ''late''])
        [''Inbox'', ''Reports''] = Inr emails \<and>
      m \<in> set emails \<and> Subject m = ''Daily Export'' \<and>
      a \<in> set (Attachments m) \<and> FileName a = ''export.zip'' \<and>
      attachment_filepath (fst (snd (get_attachment init
          (reports_mailbox [export_mail (july27 3 0 0) ''early'', export_mail (july27 9 0 0) ''late''])
          [''Inbox'', ''Reports''] ''Daily Export'' ''export.zip''
          (Some (july27 1 0 0)) (Some (july27 12 0 0)) (Some tmp_export)))) = Some tmp_export \<and>
      map_of (files (snd (snd (get_attachment init
          (reports_mailbox [export_mail (july27 3 0 0) ''early'', export_mail (july27 9 0 0) ''late''])
          [''Inbox'', ''Reports''] ''Daily Export'' ''export.zip''
          (Some (july27 1 0 0)) (Some (july27 12 0 0)) (Some tmp_export))))) tmp_export
        = Some (Content a))"
proof -
  let ?g = "get_attachment init
          (reports_mailbox [export_mail (july27 3 0 0) ''early'', export_mail (july27 9 0 0) ''late''])
          [''Inbox'', ''Reports''] ''Daily Export'' ''export.zip''
          (Some (july27 1 0 0)) (Some (july27 12 0 0)) (Some tmp_export)"
  have f: "fst ?g = Inr PyNone"
    by code_simp
  then have h: "?g = (Inr PyNone, fst (snd ?g), snd (snd ?g))"
    by (metis prod.collapse)
  from get_attachment_success [OF h] f show ?thesis
    by simp
qed

text \<open>
  Claim C3. No email received outside the interval from start to end, bounds at second
  precision, should be selected. The filter strings are built with
  \<^verbatim>\<open>%m/%d/%Y %H:%M %p\<close>, which has no seconds: with the start at 01:00:30 the mail client
  is asked for \<^verbatim>\<open>[ReceivedTime] >= '07/27/2021 01:00 AM'\<close>, and the email received at
  01:00:10, before the start, is selected. What holds is that the selected email lies
  between the two bounds at their minutes (lemma \<open>get_attachment_selects\<close>).
\<close>

theorem get_attachment_selects_before_start:
  "fst (get_attachment init (reports_mailbox [export_mail (july27 1 0 10) ''before''])
          [''Inbox'', ''Reports''] ''Daily Export'' ''export.zip''
          (Some (july27 1 0 30)) (Some (july27 12 0 0)) None)
     = Inr (PyAttachment \<lparr>FileName = ''export.zip'', Content = Bytes ''before''\<rparr>) \<and>
   calls (snd (snd (get_attachment init (reports_mailbox [export_mail (july27 1 0 10) ''before''])
          [''Inbox'', ''Reports''] ''Daily Export'' ''export.zip''
          (Some (july27 1 0 30)) (Some (july27 12 0 0)) None)))
     = [EvDispatch,
        EvRestrict (''[ReceivedTime] >= '' @ quoted ''07/27/2021 01:00 AM''),
        EvRestrict (''[ReceivedTime] <= '' @ quoted ''07/27/2021 12:00 PM''),
        EvSort] \<and>
   dt_less (july27 1 0 10) (july27 1 0 30)"
  by code_simp

text \<open>
  Claim C4. An omitted bound should only leave out its filter. Lines 60 and 61 format
  both bounds without a test for \<^verbatim>\<open>None\<close>: with the start omitted the call fails with
  \<^verbatim>\<open>AttributeError\<close> and changes nothing, with only the end omitted it fails in the same
  way after the first line was printed; in both cases before any call to the mail client,
  although an email of the folder matches.
\<close>

theorem get_attachment_omitted_bound:
  "get_attachment init (reports_mailbox [export_mail (july27 9 0 0) ''late''])
      [''Inbox'', ''Reports''] ''Daily Export'' ''export.zip'' None (Some (july27 12 0 0)) None
     = (Inl none_strftime, init, reports_mailbox [export_mail (july27 9 0 0) ''late'']) \<and>
   fst (get_attachment init (reports_mailbox [export_mail (july27 9 0 0) ''late''])
      [''Inbox'', ''Reports''] ''Daily Export'' ''export.zip'' (Some (july27 1 0 0)) None None)
     = Inl none_strftime \<and>
   calls (snd (snd (get_attachment init (reports_mailbox [export_mail (july27 9 0 0) ''late''])
      [''Inbox'', ''Reports''] ''Daily Export'' ''export.zip'' (Some (july27 1 0 0)) None None)))
     = []"
  by code_simp

text \<open>
  Claim C5. A destination path with neither a backslash nor a slash makes
  \<^verbatim>\<open>get_attachment\<close> fail at line 53, whatever the other arguments are; nothing was
  printed and no call was made by then, so the world, with its list of calls to the mail
  client, is the one the call started in.
\<close>

theorem get_attachment_bare_filename:
  assumes "CHR 0x5C \<notin> set p" and "CHR ''/'' \<notin> set p"
  shows "get_attachment self w fp subj name si ei (Some p) =
     (Inl (Exception ''Parameter save_attachment_as requires a full path. The method will not default to the current working directory.''),
      self, w)"
  using assms by (simp add: get_attachment_def check_save_attachment_as_def)

theorem get_attachment_bare_filename_witness:
  "CHR 0x5C \<notin> set ''export.zip'' \<and> CHR ''/'' \<notin> set ''export.zip'' \<and>
   get_attachment init (reports_mailbox [export_mail (july27 9 0 0) ''late''])
      [''Inbox'', ''Reports''] ''Daily Export'' ''export.zip''
      (Some (july27 1 0 0)) (Some (july27 12 0 0)) (Some ''export.zip'') =
     (Inl (Exception ''Parameter save_attachment_as requires a full path. The method will not default to the current working directory.''),
      init, reports_mailbox [export_mail (july27 9 0 0) ''late'']) \<and>
   calls (reports_mailbox [export_mail (july27 9 0 0) ''late'']) = []"
proof -
  have h1: "CHR 0x5C \<notin> set ''export.zip''" and h2: "CHR ''/'' \<notin> set ''export.zip''"
    by simp_all
  from get_attachment_bare_filename [OF h1 h2] h1 h2 show ?thesis
    by (simp add: reports_mailbox_def)
qed

text \<open>
  Claim C6. A query that no email matches should fail with the error that names the
  subject and the attachment, also for an interval without bounds. With both bounds
  omitted the call fails at line 60 with \<^verbatim>\<open>AttributeError\<close> instead, in an empty folder
  too. With both bounds given the error is the one of line 117
  (lemma \<open>get_attachment_not_found\<close>).
\<close>

theorem get_attachment_unbounded_no_match:
  "fst (get_attachment init (reports_mailbox [])
      [''Inbox'', ''Reports''] ''Daily Export'' ''export.zip'' None None None)
     = Inl none_strftime \<and>
   none_strftime \<noteq> not_found ''Daily Export'' ''export.zip''"
  by code_simp

text \<open>
  Claim C10. Whenever \<^verbatim>\<open>get_attachment\<close> ends in an error, whichever it is,
  \<^verbatim>\<open>attachment_filepath\<close> has the value it had before the call.
\<close>

theorem get_attachment_failure_keeps_filepath:
  assumes "get_attachment self w fp subj name si ei save = (Inl err, self1, w1)"
  shows "attachment_filepath self1 = attachment_filepath self"
  using get_attachment_outcome [OF assms] by (auto dest: deliver_failure [OF sym])

theorem get_attachment_failure_keeps_filepath_witness:
  "fst (get_attachment \<lparr>attachment_filepath = Some ''C:/old.xlsx'', df = None\<rparr>
          ((reports_mailbox [export_mail (july27 9 0 0) ''late''])\<lparr>locked := [tmp_export]\<rparr>)
          [''Inbox'', ''Reports''] ''Daily Export'' ''export.zip''
          (Some (july27 1 0 0)) (Some (july27 12 0 0)) (Some tmp_export))
     = Inl (Exception ''Attachment was not saved. Please refer to Python error.'') \<and>
   attachment_filepath (fst (snd (get_attachment \<lparr>attachment_filepath = Some ''C:/old.xlsx'', df = None\<rparr>
          ((reports_mailbox [export_mail (july27 9 0 0) ''late''])\<lparr>locked := [tmp_export]\<rparr>)
          [''Inbox'', ''Reports''] ''Daily Export'' ''export.zip''
          (Some (july27 1 0 0)) (Some (july27 12 0 0)) (Some tmp_export))))
     = Some ''C:/old.xlsx''"
proof -
  let ?g = "get_attachment \<lparr>attachment_filepath = Some ''C:/old.xlsx'', df = None\<rparr>
          ((reports_mailbox [export_mail (july27 9 0 0) ''late''])\<lparr>locked := [tmp_export]\<rparr>)
          [''Inbox'', ''Reports''] ''Daily Export'' ''export.zip''
          (Some (july27 1 0 0)) (Some (july27 12 0 0)) (Some tmp_export)"
  have f: "fst ?g = Inl (Exception ''Attachment was not saved. Please refer to Python error.'')"
    by code_simp
  then have h: "?g = (Inl (Exception ''Attachment was not saved. Please refer to Python error.''),
                      fst (snd ?g), snd (snd ?g))"
    by (metis prod.collapse)
  from get_attachment_failure_keeps_filepath [OF h] f show ?thesis
    by simp
qed

section \<open>The claims about \<^verbatim>\<open>extract_zip_content\<close>\<close>

text \<open>
  Claim C7, as stated: with several matching members, the path of the last extracted
  member is the one reported. Every extracted member has its path printed, and the call
  returns \<^verbatim>\<open>None\<close>: here two members contain \<^verbatim>\<open>report\<close>.
\<close>

theorem extract_zip_content_reports_each:
  "stdout (snd (snd (extract_zip_content init
       (disk_with tmp_export (Archive [(''2021_report_final.csv'', ''a''), (''2022_report.csv'', ''b'')]))
       tmp_export ''report'' tmp_out False)))
     = [unzipped_report tmp_out ''2021_report_final.csv'', unzipped_report tmp_out ''2022_report.csv''] \<and>
   stdout (snd (snd (extract_zip_content init
       (disk_with tmp_export (Archive [(''2021_report_final.csv'', ''a''), (''2022_report.csv'', ''b'')]))
       tmp_export ''report'' tmp_out False)))
     \<noteq> [unzipped_report tmp_out ''2022_report.csv''] \<and>
   fst (extract_zip_content init
       (disk_with tmp_export (Archive [(''2021_report_final.csv'', ''a''), (''2022_report.csv'', ''b'')]))
       tmp_export ''report'' tmp_out False) = Inr PyNone"
  by code_simp

text \<open>
  Claim C7, amended. On an archive, \<^verbatim>\<open>extract_zip_content\<close> calls the extraction for
  the wanted member names, each of them, in the order of the archive, and for nothing
  else; when there is one it returns \<^verbatim>\<open>None\<close> and prints the resulting path of every
  extracted member, in the same order, so that the path of the last one is printed last.
  In exact mode the wanted names are those equal to the target, in substring mode those
  that contain it.
\<close>

theorem extract_zip_content_extracts:
  assumes "map_of (files w) filepath = Some (Archive zf)"
      and "extract_zip_content self w filepath t folder exact = (r, self1, w1)"
  shows "calls w1 = calls w @ map (\<lambda>n. EvExtract n folder) (filter (wanted exact t) (namelist zf)) \<and>
         (filter (wanted exact t) (namelist zf) \<noteq> [] \<longrightarrow>
            r = Inr PyNone \<and>
            stdout w1 = stdout w @ map (unzipped_report folder) (filter (wanted exact t) (namelist zf))) \<and>
         (\<forall>n. wanted True t n = (n = t)) \<and>
         (\<forall>n. wanted False t n = (\<exists>ps ss. n = ps @ t @ ss))"
proof -
  obtain fp2 found2 w2 where
    e: "extract_members exact t folder zf (namelist zf) filepath False w = (fp2, found2, w2)"
    by (cases "extract_members exact t folder zf (namelist zf) filepath False w") auto
  note eff = extract_members_effect [OF e]
  have z: "is_zipfile w filepath" "ZipFile w filepath = zf"
    using assms(1) by (simp_all add: is_zipfile_def ZipFile_def)
  have c: "calls w1 = calls w2"
    using assms(2) e z
    by (auto simp add: extract_zip_content_def print_def split: if_splits list.splits)
  have s: "found2 \<Longrightarrow> r = Inr PyNone \<and> w1 = w2"
    using assms(2) e z by (simp add: extract_zip_content_def)
  from eff c s show ?thesis
    by (auto simp add: wanted_def str_in_iff)
qed

theorem extract_zip_content_extracts_witness:
  "map_of (files (disk_with tmp_export
       (Archive [(''2021_report_final.csv'', ''a''), (''notes.txt'', ''n''), (''report'', ''b'')])))
     tmp_export
     = Some (Archive [(''2021_report_final.csv'', ''a''), (''notes.txt'', ''n''), (''report'', ''b'')]) \<and>
   calls (snd (snd (extract_zip_content init
       (disk_with tmp_export
          (Archive [(''2021_report_final.csv'', ''a''), (''notes.txt'', ''n''), (''report'', ''b'')]))
       tmp_export ''report'' tmp_out True)))
     = [EvExtract ''report'' tmp_out] \<and>
   stdout (snd (snd (extract_zip_content init
       (disk_with tmp_export
          (Archive [(''2021_report_final.csv'', ''a''), (''notes.txt'', ''n''), (''report'', ''b'')]))
       tmp_export ''report'' tmp_out True)))
     = [unzipped_report tmp_out ''report'']"
proof -
  let ?zf = "[(''2021_report_final.csv'', ''a''), (''notes.txt'', ''n''), (''report'', ''b'')]"
  let ?x = "extract_zip_content init (disk_with tmp_export (Archive ?zf)) tmp_export ''report'' tmp_out True"
  have h1: "map_of (files (disk_with tmp_export (Archive ?zf))) tmp_export = Some (Archive ?zf)"
    by (simp add: disk_with_def)
  have h2: "?x = (fst ?x, fst (snd ?x), snd (snd ?x))"
    by simp
  have sel: "filter (wanted True ''report'') (namelist ?zf) = [''report'']"
    by (simp add: wanted_def namelist_def)
  from extract_zip_content_extracts [OF h1 h2] h1 sel show ?thesis
    by (simp add: disk_with_def)
qed

text \<open>
  Claim C8. A call that finds nothing to extract should warn and return. It does for a
  file that is not an archive (lemma \<open>extract_zip_content_not_zip\<close>) and for an archive
  with members of which none is wanted (lemma \<open>extract_zip_content_no_member_found\<close>,
  where the warning names the last member and not the target). On an archive without
  members line 163 reads the loop variable \<^verbatim>\<open>file_name\<close>, which was never bound: the call
  raises \<^verbatim>\<open>UnboundLocalError\<close> and prints no warning.
\<close>

theorem extract_zip_content_empty_archive:
  "extract_zip_content init (disk_with tmp_export (Archive [])) tmp_export ''report'' tmp_out False
     = (Inl (UnboundLocalError ''file_name''), init, disk_with tmp_export (Archive []))"
  by code_simp

end
